theory Spec2Isabelle
  imports Main "HOL-Library.Word"
begin

section \<open>The ABI value codec of package abi (abi.go)\<close>

subsection \<open>Go data: bytes, slices, pointers\<close>

type_synonym byte = "8 word"

text \<open>
  A Go slice is either the nil slice or a (possibly zero-length) sequence of elements;
  \<open>len\<close> is 0 for both the nil slice and the empty slice. The backing array and the
  capacity are not modelled: no function of the file writes through a slice.
\<close>

datatype 'a slice = NilSlice | Slice "'a list"

fun elems :: "'a slice \<Rightarrow> 'a list" where
  "elems NilSlice = []"
| "elems (Slice xs) = xs"

definition len :: "'a slice \<Rightarrow> nat" where
  "len s = length (elems s)"

text \<open>
  A Go pointer is nil or points to a value. Only nil-ness and the pointee are modelled,
  not the address: the file never compares pointers and never mutates a pointee.
\<close>

datatype 'a ptr = NilPtr | Ptr 'a

subsection \<open>The type tag\<close>

text \<open>\<^verbatim>\<open>type Type uint64\<close> with the constants numbered by \<^verbatim>\<open>iota\<close>.\<close>

type_synonym Type = "64 word"

definition Invalid :: Type where "Invalid = 0"
definition Address :: Type where "Address = 1"
definition Integer :: Type where "Integer = 2"
definition Bytes :: Type where "Bytes = 3"
definition String :: Type where "String = 4"

subsection \<open>Dynamically typed payloads\<close>

text \<open>
  The dynamic type of an \<^verbatim>\<open>interface{}\<close> value, as \<^verbatim>\<open>reflect.TypeOf\<close> and the verb
  \<^verbatim>\<open>%T\<close> report it. \<open>TOther k\<close> stands for the Go types other than the four the
  package knows (\<^verbatim>\<open>int\<close>, \<^verbatim>\<open>bool\<close>, \<^verbatim>\<open>big.Int\<close>, ...), numbered by \<open>k\<close>.
\<close>

datatype gotype = TAddress | TBigIntPtr | TByteSlice | TString | TOther nat

text \<open>
  A Go string is an immutable sequence of bytes, here a \<open>string\<close> (a list of 8-bit
  characters). \<^verbatim>\<open>[]byte(s)\<close> copies the bytes of a string into a fresh non-nil
  slice, and \<^verbatim>\<open>string(data)\<close> copies the bytes of a slice into a string; the nil slice
  gives the empty string.
\<close>

definition bytes_of_string :: "string \<Rightarrow> byte slice" where
  "bytes_of_string s = Slice (map of_char s)"

definition string_of_bytes :: "byte slice \<Rightarrow> string" where
  "string_of_bytes data = map (\<lambda>b. char_of (unat b)) (elems data)"

text \<open>Modelled from the spec: the declaration of \<^verbatim>\<open>types.Address\<close> is in package types,
  outside this file. The spec calls it an opaque, byte-sequence-backed identifier whose
  encoding is its own byte projection, and abi.go builds one with \<^verbatim>\<open>types.Address("")\<close>
  and converts with \<^verbatim>\<open>[]byte(addr)\<close> and \<^verbatim>\<open>types.Address(data)\<close>: a named string type,
  with the conversions of strings.
\<close>

type_synonym address = string

text \<open>
  The value held in an \<^verbatim>\<open>interface{}\<close> slot: the untyped nil, or a value of one of the
  four known dynamic types, or a value of some other type (its type number and an
  uninterpreted content). A \<^verbatim>\<open>*big.Int\<close> is a pointer and may be a typed nil; a
  \<^verbatim>\<open>[]byte\<close> may be the nil slice. An arbitrary-precision integer is an \<open>int\<close>.
\<close>

datatype goval =
    NilV
  | AddressV address
  | BigIntV "int ptr"
  | BytesV "byte slice"
  | StringV string
  | OtherV nat nat

fun typeOf :: "goval \<Rightarrow> gotype option" where
  "typeOf NilV = None"
| "typeOf (AddressV a) = Some TAddress"
| "typeOf (BigIntV p) = Some TBigIntPtr"
| "typeOf (BytesV b) = Some TByteSlice"
| "typeOf (StringV s) = Some TString"
| "typeOf (OtherV k c) = Some (TOther k)"

text \<open>\<^verbatim>\<open>type Value struct { Type Type; Val interface{} }\<close>\<close>

record Value =
  Type :: Type
  Val :: goval

subsection \<open>Errors\<close>

text \<open>
  \<open>ErrInvalidType\<close> is the package variable of that name; \<open>typeError exp got\<close> is the
  struct \<^verbatim>\<open>typeError{exp, got}\<close>; \<open>UnrecognizedType t\<close> is
  \<^verbatim>\<open>fmt.Errorf("unrecognized Type: %d", t)\<close>; \<open>UnsupportedType T\<close> is
  \<^verbatim>\<open>fmt.Errorf("unsupported type: %T", v)\<close> with \<open>T\<close> the dynamic type of \<open>v\<close>
  (\<open>None\<close> prints as \<^verbatim>\<open><nil>\<close>). \<open>NilDereference\<close> is the run-time panic of reading
  through a nil pointer; it is no error value of the package, the call does not return.
\<close>

datatype error =
    ErrInvalidType
  | typeError goval goval
  | UnrecognizedType Type
  | UnsupportedType "gotype option"
  | NilDereference

subsection \<open>math/big: magnitude bytes\<close>

text \<open>
  \<^verbatim>\<open>(*big.Int).Bytes\<close> returns the absolute value as a big-endian byte slice without
  leading zero bytes (zero gives a slice of length 0), and \<^verbatim>\<open>(*big.Int).SetBytes\<close>
  reads a slice as a big-endian unsigned integer (the empty and the nil slice give 0).
  Both are methods of the Go standard library; \<open>Bytes\<close> reads the fields of its
  receiver, which panics on a nil receiver.
\<close>

fun nat_bytes :: "nat \<Rightarrow> byte list" where
  "nat_bytes n = (if n = 0 then [] else nat_bytes (n div 256) @ [of_nat (n mod 256)])"

declare nat_bytes.simps [simp del]

definition bytes_nat :: "byte list \<Rightarrow> nat" where
  "bytes_nat bs = foldl (\<lambda>acc b. acc * 256 + unat b) 0 bs"

definition big_Bytes :: "int ptr \<Rightarrow> error + byte slice" where
  "big_Bytes x = (case x of NilPtr \<Rightarrow> Inl NilDereference
                  | Ptr n \<Rightarrow> Inr (Slice (nat_bytes (nat \<bar>n\<bar>))))"

definition big_SetBytes :: "byte slice \<Rightarrow> int ptr" where
  "big_SetBytes buf = Ptr (int (bytes_nat (elems buf)))"

subsection \<open>Serialize\<close>

text \<open>
  The method has a pointer receiver and reads \<^verbatim>\<open>av.Type\<close> first. Each valid tag makes the
  type assertion on \<^verbatim>\<open>av.Val\<close>; a failed assertion returns the \<open>typeError\<close> of the zero
  value of the expected type and the payload.
\<close>

definition Serialize :: "Value ptr \<Rightarrow> error + byte slice" where
  "Serialize p =
     (case p of
        NilPtr \<Rightarrow> Inl NilDereference
      | Ptr av \<Rightarrow>
          if Type av = Invalid then Inl ErrInvalidType
          else if Type av = Address then
            (case Val av of
               AddressV addr \<Rightarrow> Inr (bytes_of_string addr)
             | _ \<Rightarrow> Inl (typeError (AddressV '''') (Val av)))
          else if Type av = Integer then
            (case Val av of
               BigIntV intgr \<Rightarrow> big_Bytes intgr
             | _ \<Rightarrow> Inl (typeError (BigIntV (Ptr 0)) (Val av)))
          else if Type av = Bytes then
            (case Val av of
               BytesV b \<Rightarrow> Inr b
             | _ \<Rightarrow> Inl (typeError (BytesV (Slice [])) (Val av)))
          else if Type av = String then
            (case Val av of
               StringV s \<Rightarrow> Inr (bytes_of_string s)
             | _ \<Rightarrow> Inl (typeError (StringV '''') (Val av)))
          else Inl (UnrecognizedType (Type av)))"

subsection \<open>Deserialize\<close>

definition Deserialize :: "byte slice \<Rightarrow> Type \<Rightarrow> error + Value ptr" where
  "Deserialize data t =
     (if t = Invalid then Inl ErrInvalidType
      else if t = Address then Inr (Ptr \<lparr>Type = t, Val = AddressV (string_of_bytes data)\<rparr>)
      else if t = Integer then Inr (Ptr \<lparr>Type = t, Val = BigIntV (big_SetBytes data)\<rparr>)
      else if t = Bytes then Inr (Ptr \<lparr>Type = t, Val = BytesV data\<rparr>)
      else if t = String then Inr (Ptr \<lparr>Type = t, Val = StringV (string_of_bytes data)\<rparr>)
      else Inl (UnrecognizedType t))"

subsection \<open>ToValues and FromValues\<close>

text \<open>
  The loop of \<open>ToValues\<close> appends one \<^verbatim>\<open>&Value{...}\<close> per element to \<open>out\<close> and returns
  at the first element that no case of the type switch matches (the untyped nil
  included), dropping \<open>out\<close>.
\<close>

fun ToValues_loop :: "goval list \<Rightarrow> Value ptr list \<Rightarrow> error + Value ptr list" where
  "ToValues_loop [] out = Inr out"
| "ToValues_loop (v # vs) out =
     (case v of
        AddressV a \<Rightarrow> ToValues_loop vs (out @ [Ptr \<lparr>Type = Address, Val = v\<rparr>])
      | BigIntV n \<Rightarrow> ToValues_loop vs (out @ [Ptr \<lparr>Type = Integer, Val = v\<rparr>])
      | BytesV b \<Rightarrow> ToValues_loop vs (out @ [Ptr \<lparr>Type = Bytes, Val = v\<rparr>])
      | StringV s \<Rightarrow> ToValues_loop vs (out @ [Ptr \<lparr>Type = String, Val = v\<rparr>])
      | _ \<Rightarrow> Inl (UnsupportedType (typeOf v)))"

definition ToValues :: "goval slice \<Rightarrow> error + Value ptr slice" where
  "ToValues i =
     (if len i = 0 then Inr NilSlice
      else case ToValues_loop (elems i) [] of
             Inl e \<Rightarrow> Inl e
           | Inr out \<Rightarrow> Inr (Slice out))"

text \<open>
  \<open>FromValues\<close> has no error result; its loop reads \<^verbatim>\<open>v.Val\<close> through each element of
  the \<^verbatim>\<open>[]*Value\<close>, which panics on a nil element.
\<close>

fun FromValues_loop :: "Value ptr list \<Rightarrow> goval list \<Rightarrow> error + goval list" where
  "FromValues_loop [] out = Inr out"
| "FromValues_loop (v # vs) out =
     (case v of
        NilPtr \<Rightarrow> Inl NilDereference
      | Ptr av \<Rightarrow> FromValues_loop vs (out @ [Val av]))"

definition FromValues :: "Value ptr slice \<Rightarrow> error + goval slice" where
  "FromValues vals =
     (if len vals = 0 then Inr NilSlice
      else case FromValues_loop (elems vals) [] of
             Inl e \<Rightarrow> Inl e
           | Inr out \<Rightarrow> Inr (Slice out))"

subsection \<open>The type registry\<close>

definition typeTable :: "Type \<rightharpoonup> gotype" where
  "typeTable = [Address \<mapsto> TAddress, Integer \<mapsto> TBigIntPtr,
                Bytes \<mapsto> TByteSlice, String \<mapsto> TString]"

text \<open>
  \<^verbatim>\<open>reflect.Type\<close> is an interface; \<open>None\<close> is its nil value (what
  \<^verbatim>\<open>reflect.TypeOf(nil)\<close> returns). The registry holds no nil entry.
\<close>

definition TypeMatches :: "Type \<Rightarrow> gotype option \<Rightarrow> bool" where
  "TypeMatches t val =
     (case typeTable t of
        None \<Rightarrow> False
      | Some rt \<Rightarrow> Some rt = val)"

subsection \<open>Supported payloads\<close>

text \<open>
  The payloads that a case of the type switch of \<open>ToValues\<close> accepts: those whose dynamic
  type is one of \<^verbatim>\<open>types.Address\<close>, \<^verbatim>\<open>*big.Int\<close>, \<^verbatim>\<open>[]byte\<close> and \<^verbatim>\<open>string\<close>.
\<close>

abbreviation supported :: "goval \<Rightarrow> bool" where
  "supported v \<equiv> typeOf v \<in> {Some TAddress, Some TBigIntPtr, Some TByteSlice, Some TString}"

section \<open>Basic facts\<close>

lemmas tag_defs = Invalid_def Address_def Integer_def Bytes_def String_def

lemma bytes_nat_snoc: "bytes_nat (bs @ [b]) = bytes_nat bs * 256 + unat b"
  by (simp add: bytes_nat_def)

lemma bytes_nat_nat_bytes: "bytes_nat (nat_bytes n) = n"
proof (induction n rule: nat_bytes.induct)
  case (1 n)
  show ?case
  proof (cases "n = 0")
    case True
    then show ?thesis by (simp add: nat_bytes.simps bytes_nat_def)
  next
    case False
    have "nat_bytes n = nat_bytes (n div 256) @ [of_nat (n mod 256)]"
      using False by (subst nat_bytes.simps) simp
    moreover have "unat (of_nat (n mod 256) :: byte) = n mod 256"
      by (simp add: unat_of_nat)
    ultimately show ?thesis
      using 1 [OF False] by (simp add: bytes_nat_snoc)
  qed
qed

lemma unat_of_char: "unat (of_char c :: byte) = of_char c"
proof -
  have "(of_char c :: byte) = of_nat (of_char c)"
    by (simp add: of_nat_of_char)
  moreover have "(of_char c :: nat) < 256"
    by (rule nat_of_char_less_256)
  ultimately show ?thesis
    by (simp add: unat_of_nat)
qed

lemma string_of_bytes_of_string: "string_of_bytes (bytes_of_string s) = s"
  by (simp add: string_of_bytes_def bytes_of_string_def unat_of_char comp_def)

lemma nat_bytes_300: "nat_bytes 300 = [1, 0x2C]"
  by (simp add: nat_bytes.simps)

lemma nat_bytes_0: "nat_bytes 0 = []"
  by (simp add: nat_bytes.simps)

lemma typeTable_eq_Some:
  "typeTable t = Some r \<longleftrightarrow>
     (t = Address \<and> r = TAddress) \<or> (t = Integer \<and> r = TBigIntPtr)
     \<or> (t = Bytes \<and> r = TByteSlice) \<or> (t = String \<and> r = TString)"
  by (auto simp: typeTable_def tag_defs split: if_splits)

lemma Deserialize_Inl:
  "Deserialize data t = Inl e \<longleftrightarrow>
     (t = Invalid \<and> e = ErrInvalidType)
     \<or> (t \<notin> {Invalid, Address, Integer, Bytes, String} \<and> e = UnrecognizedType t)"
  by (auto simp: Deserialize_def)

lemma Deserialize_valid:
  "t \<in> {Address, Integer, Bytes, String} \<Longrightarrow> \<exists>v. Deserialize data t = Inr (Ptr v) \<and> Type v = t"
  by (auto simp: Deserialize_def tag_defs)

lemma Serialize_Invalid:
  "Type av = Invalid \<Longrightarrow> Serialize (Ptr av) = Inl ErrInvalidType"
  by (simp add: Serialize_def)

lemma Serialize_unrecognized:
  "Type av \<notin> {Invalid, Address, Integer, Bytes, String} \<Longrightarrow>
     Serialize (Ptr av) = Inl (UnrecognizedType (Type av))"
  by (simp add: Serialize_def)

lemma Serialize_mismatch:
  assumes "Type av \<in> {Address, Integer, Bytes, String}"
    and "typeOf (Val av) \<noteq> typeTable (Type av)"
  shows "\<exists>exp. Serialize (Ptr av) = Inl (typeError exp (Val av))
            \<and> typeOf exp = typeTable (Type av)"
proof -
  consider "Type av = Address" | "Type av = Integer" | "Type av = Bytes" | "Type av = String"
    using assms(1) by blast
  then show ?thesis
  proof cases
    case 1
    then show ?thesis using assms(2)
      by (cases "Val av") (simp_all add: Serialize_def typeTable_def tag_defs)
  next
    case 2
    then show ?thesis using assms(2)
      by (cases "Val av") (simp_all add: Serialize_def typeTable_def tag_defs)
  next
    case 3
    then show ?thesis using assms(2)
      by (cases "Val av") (simp_all add: Serialize_def typeTable_def tag_defs)
  next
    case 4
    then show ?thesis using assms(2)
      by (cases "Val av") (simp_all add: Serialize_def typeTable_def tag_defs)
  qed
qed

lemma Serialize_match:
  assumes "Type av \<in> {Address, Integer, Bytes, String}"
    and "typeOf (Val av) = typeTable (Type av)"
    and "Val av \<noteq> BigIntV NilPtr"
  shows "\<exists>bs. Serialize (Ptr av) = Inr bs"
proof -
  consider "Type av = Address" | "Type av = Integer" | "Type av = Bytes" | "Type av = String"
    using assms(1) by blast
  then show ?thesis
  proof cases
    case 1
    then show ?thesis using assms(2)
      by (cases "Val av") (simp_all add: Serialize_def typeTable_def tag_defs)
  next
    case 2
    show ?thesis
    proof (cases "Val av")
      case (BigIntV p)
      then obtain n where "p = Ptr n" using assms(3) by (cases p) simp_all
      then show ?thesis using 2 BigIntV
        by (simp add: Serialize_def big_Bytes_def tag_defs)
    qed (use 2 assms(2) in \<open>simp_all add: typeTable_def tag_defs\<close>)
  next
    case 3
    then show ?thesis using assms(2)
      by (cases "Val av") (simp_all add: Serialize_def typeTable_def tag_defs)
  next
    case 4
    then show ?thesis using assms(2)
      by (cases "Val av") (simp_all add: Serialize_def typeTable_def tag_defs)
  qed
qed

lemma roundtrip_plain:
  assumes "t \<in> {Address, Bytes, String}" and "typeOf v = typeTable t"
  shows "\<exists>bs. Serialize (Ptr \<lparr>Type = t, Val = v\<rparr>) = Inr bs
            \<and> Deserialize bs t = Inr (Ptr \<lparr>Type = t, Val = v\<rparr>)"
proof -
  consider "t = Address" | "t = Bytes" | "t = String"
    using assms(1) by blast
  then show ?thesis
  proof cases
    case 1
    then show ?thesis using assms(2)
      by (cases v) (simp_all add: Serialize_def Deserialize_def typeTable_def tag_defs
          string_of_bytes_of_string)
  next
    case 2
    then show ?thesis using assms(2)
      by (cases v) (simp_all add: Serialize_def Deserialize_def typeTable_def tag_defs
          string_of_bytes_of_string)
  next
    case 3
    then show ?thesis using assms(2)
      by (cases v) (simp_all add: Serialize_def Deserialize_def typeTable_def tag_defs
          string_of_bytes_of_string)
  qed
qed

lemma Serialize_Integer:
  "Serialize (Ptr \<lparr>Type = Integer, Val = BigIntV p\<rparr>) = big_Bytes p"
  by (simp add: Serialize_def tag_defs)

lemma Deserialize_Integer:
  "Deserialize bs Integer = Inr (Ptr \<lparr>Type = Integer, Val = BigIntV (big_SetBytes bs)\<rparr>)"
  by (simp add: Deserialize_def tag_defs)

lemma big_SetBytes_Bytes:
  "big_Bytes (Ptr n) = Inr bs \<Longrightarrow> big_SetBytes bs = Ptr \<bar>n\<bar>"
  by (auto simp: big_Bytes_def big_SetBytes_def bytes_nat_nat_bytes)

lemma roundtrip_Integer:
  "(\<exists>bs. Serialize (Ptr \<lparr>Type = Integer, Val = BigIntV p\<rparr>) = Inr bs
        \<and> Deserialize bs Integer = Inr (Ptr \<lparr>Type = Integer, Val = BigIntV p\<rparr>))
   \<longleftrightarrow> (\<exists>n. 0 \<le> n \<and> p = Ptr n)"
proof (cases p)
  case NilPtr
  then show ?thesis by (simp add: Serialize_Integer big_Bytes_def)
next
  case (Ptr n)
  obtain bs where bs: "big_Bytes (Ptr n) = Inr bs"
    by (simp add: big_Bytes_def)
  have "big_SetBytes bs = Ptr \<bar>n\<bar>"
    using bs by (rule big_SetBytes_Bytes)
  then show ?thesis
    using Ptr bs by (auto simp: Serialize_Integer Deserialize_Integer)
qed

lemma typeOf_BigInt: "typeOf v = typeTable Integer \<longleftrightarrow> (\<exists>p. v = BigIntV p)"
  by (cases v) (simp_all add: typeTable_def tag_defs)

lemma ToValues_loop_fail:
  "\<forall>x\<in>set pre. supported x \<Longrightarrow> \<not> supported v \<Longrightarrow>
     ToValues_loop (pre @ v # post) out = Inl (UnsupportedType (typeOf v))"
proof (induction pre arbitrary: out)
  case Nil
  then show ?case by (cases v) simp_all
next
  case (Cons x pre)
  then show ?case by (cases x) simp_all
qed

lemma ToValues_loop_ok:
  "\<forall>x\<in>set xs. supported x \<Longrightarrow>
     \<exists>vs. ToValues_loop xs out = Inr (out @ map Ptr vs) \<and> map Val vs = xs
        \<and> (\<forall>av\<in>set vs. TypeMatches (Type av) (typeOf (Val av)))"
proof (induction xs arbitrary: out)
  case Nil
  then show ?case by simp
next
  case (Cons x xs)
  obtain t where t: "ToValues_loop (x # xs) out = ToValues_loop xs (out @ [Ptr \<lparr>Type = t, Val = x\<rparr>])"
    and m: "TypeMatches t (typeOf x)"
    using Cons.prems
    by (cases x) (simp_all add: TypeMatches_def typeTable_def tag_defs)
  from Cons.prems have "\<forall>x\<in>set xs. supported x" by simp
  from Cons.IH [OF this, of "out @ [Ptr \<lparr>Type = t, Val = x\<rparr>]"]
  obtain vs where vs: "ToValues_loop xs (out @ [Ptr \<lparr>Type = t, Val = x\<rparr>])
        = Inr ((out @ [Ptr \<lparr>Type = t, Val = x\<rparr>]) @ map Ptr vs)"
      "map Val vs = xs" "\<forall>av\<in>set vs. TypeMatches (Type av) (typeOf (Val av))"
    by blast
  let ?vs = "\<lparr>Type = t, Val = x\<rparr> # vs"
  have A: "ToValues_loop (x # xs) out = Inr (out @ map Ptr ?vs)"
    using t vs(1) by simp
  have B: "map Val ?vs = x # xs" using vs(2) by simp
  have C: "\<forall>av\<in>set ?vs. TypeMatches (Type av) (typeOf (Val av))"
    using vs(3) m by simp
  show ?case by (rule exI [of _ ?vs]) (intro conjI A B C)
qed

lemma ToValues_ok:
  assumes "\<forall>x\<in>set (elems i). supported x"
  shows "\<exists>vs. ToValues i = Inr (if elems i = [] then NilSlice else Slice (map Ptr vs))
           \<and> map Val vs = elems i
           \<and> (\<forall>av\<in>set vs. TypeMatches (Type av) (typeOf (Val av)))"
proof -
  from ToValues_loop_ok [OF assms, of "[]"]
  obtain vs where vs: "ToValues_loop (elems i) [] = Inr (map Ptr vs)" "map Val vs = elems i"
      "\<forall>av\<in>set vs. TypeMatches (Type av) (typeOf (Val av))"
    by auto
  have "ToValues i = Inr (if elems i = [] then NilSlice else Slice (map Ptr vs))"
    using vs(1) by (simp add: ToValues_def len_def)
  then show ?thesis using vs(2,3) by blast
qed

lemma FromValues_loop_Ptr:
  "FromValues_loop (map Ptr vs) out = Inr (out @ map Val vs)"
  by (induction vs arbitrary: out) simp_all

lemma FromValues_Ptr:
  "FromValues (Slice (map Ptr vs)) = Inr (if vs = [] then NilSlice else Slice (map Val vs))"
  by (simp add: FromValues_def len_def FromValues_loop_Ptr)

lemma FromValues_loop_nil:
  "NilPtr \<in> set ps \<Longrightarrow> FromValues_loop ps out = Inl NilDereference"
proof (induction ps arbitrary: out)
  case Nil
  then show ?case by simp
next
  case (Cons p ps)
  then show ?case by (cases p) auto
qed

lemma no_nil_map_Ptr: "NilPtr \<notin> set ps \<Longrightarrow> \<exists>vs. ps = map Ptr vs"
proof (induction ps)
  case Nil
  then show ?case by simp
next
  case (Cons p ps)
  then obtain vs where vs: "ps = map Ptr vs" by auto
  from Cons.prems obtain v where "p = Ptr v" by (cases p) auto
  then have "p # ps = map Ptr (v # vs)" using vs by simp
  then show ?case by (rule exI [of _ "v # vs"])
qed

lemma FromValues_nil_elem:
  "NilPtr \<in> set (elems vals) \<Longrightarrow> FromValues vals = Inl NilDereference"
proof -
  assume a: "NilPtr \<in> set (elems vals)"
  then have "len vals \<noteq> 0" by (auto simp: len_def)
  then show ?thesis using FromValues_loop_nil [OF a, of "[]"]
    by (simp add: FromValues_def)
qed

lemma FromValues_no_nil:
  assumes "NilPtr \<notin> set (elems vals)"
  shows "\<exists>vs. elems vals = map Ptr vs
           \<and> FromValues vals = Inr (if vs = [] then NilSlice else Slice (map Val vs))"
proof -
  from no_nil_map_Ptr [OF assms] obtain vs where vs: "elems vals = map Ptr vs" by blast
  have "FromValues vals = Inr (if vs = [] then NilSlice else Slice (map Val vs))"
  proof (cases vals)
    case NilSlice
    then show ?thesis using vs by (simp add: FromValues_def len_def)
  next
    case (Slice ps)
    then show ?thesis using vs FromValues_Ptr [of vs] by simp
  qed
  then show ?thesis using vs by blast
qed

section \<open>Serialize and Deserialize\<close>

text \<open>
  Claim C1. For the tags Address, Bytes and String and every payload \<open>v\<close> whose dynamic
  type is the one the registry gives the tag, \<open>Serialize\<close> of the value returns bytes and
  \<open>Deserialize\<close> of these bytes with the same tag returns the same value again. For the
  tag Integer and a \<^verbatim>\<open>*big.Int\<close> payload the round trip holds exactly when the payload
  points to a non-negative integer: the encoding holds the magnitude only, so decoding
  the bytes of \<open>n\<close> gives \<open>\<bar>n\<bar>\<close>.
\<close>

theorem Serialize_Deserialize_roundtrip:
  "(t \<in> {Address, Bytes, String} \<and> typeOf v = typeTable t \<longrightarrow>
      (\<exists>bs. Serialize (Ptr \<lparr>Type = t, Val = v\<rparr>) = Inr bs
          \<and> Deserialize bs t = Inr (Ptr \<lparr>Type = t, Val = v\<rparr>)))
   \<and> (typeOf v = typeTable Integer \<longrightarrow>
        ((\<exists>bs. Serialize (Ptr \<lparr>Type = Integer, Val = v\<rparr>) = Inr bs
            \<and> Deserialize bs Integer = Inr (Ptr \<lparr>Type = Integer, Val = v\<rparr>))
         \<longleftrightarrow> (\<exists>n. 0 \<le> n \<and> v = BigIntV (Ptr n))))
   \<and> (Serialize (Ptr \<lparr>Type = Integer, Val = BigIntV (Ptr n)\<rparr>) = Inr bs \<longrightarrow>
        Deserialize bs Integer = Inr (Ptr \<lparr>Type = Integer, Val = BigIntV (Ptr \<bar>n\<bar>)\<rparr>))"
proof -
  have a: "t \<in> {Address, Bytes, String} \<and> typeOf v = typeTable t \<longrightarrow>
      (\<exists>bs. Serialize (Ptr \<lparr>Type = t, Val = v\<rparr>) = Inr bs
          \<and> Deserialize bs t = Inr (Ptr \<lparr>Type = t, Val = v\<rparr>))"
    using roundtrip_plain [of t v] by blast
  have b: "typeOf v = typeTable Integer \<longrightarrow>
        ((\<exists>bs. Serialize (Ptr \<lparr>Type = Integer, Val = v\<rparr>) = Inr bs
            \<and> Deserialize bs Integer = Inr (Ptr \<lparr>Type = Integer, Val = v\<rparr>))
         \<longleftrightarrow> (\<exists>n. 0 \<le> n \<and> v = BigIntV (Ptr n)))"
  proof
    assume "typeOf v = typeTable Integer"
    then obtain p where "v = BigIntV p" using typeOf_BigInt by blast
    then show "(\<exists>bs. Serialize (Ptr \<lparr>Type = Integer, Val = v\<rparr>) = Inr bs
            \<and> Deserialize bs Integer = Inr (Ptr \<lparr>Type = Integer, Val = v\<rparr>))
         \<longleftrightarrow> (\<exists>n. 0 \<le> n \<and> v = BigIntV (Ptr n))"
      using roundtrip_Integer [of p] by simp
  qed
  have c: "Serialize (Ptr \<lparr>Type = Integer, Val = BigIntV (Ptr n)\<rparr>) = Inr bs \<longrightarrow>
        Deserialize bs Integer = Inr (Ptr \<lparr>Type = Integer, Val = BigIntV (Ptr \<bar>n\<bar>)\<rparr>)"
    using big_SetBytes_Bytes [of n bs] by (simp add: Serialize_Integer Deserialize_Integer)
  show ?thesis using a b c by blast
qed

theorem Serialize_Deserialize_roundtrip_witness:
  "(\<exists>bs. Serialize (Ptr \<lparr>Type = String, Val = StringV ''hi''\<rparr>) = Inr bs
        \<and> Deserialize bs String = Inr (Ptr \<lparr>Type = String, Val = StringV ''hi''\<rparr>))
   \<and> (\<exists>bs. Serialize (Ptr \<lparr>Type = Integer, Val = BigIntV (Ptr 300)\<rparr>) = Inr bs
        \<and> Deserialize bs Integer = Inr (Ptr \<lparr>Type = Integer, Val = BigIntV (Ptr 300)\<rparr>))
   \<and> \<not> (\<exists>bs. Serialize (Ptr \<lparr>Type = Integer, Val = BigIntV (Ptr (- 300))\<rparr>) = Inr bs
        \<and> Deserialize bs Integer = Inr (Ptr \<lparr>Type = Integer, Val = BigIntV (Ptr (- 300))\<rparr>))"
  using Serialize_Deserialize_roundtrip [of String "StringV ''hi''"]
    Serialize_Deserialize_roundtrip [of String "BigIntV (Ptr 300)"]
    Serialize_Deserialize_roundtrip [of String "BigIntV (Ptr (- 300))"]
  by (simp add: typeTable_def tag_defs)

text \<open>
  Claim C2. \<open>Deserialize data t\<close> returns \<open>ErrInvalidType\<close> exactly when \<open>t\<close> is
  \<open>Invalid\<close>; it returns an unrecognized-type error exactly when \<open>t\<close> is none of the
  five constants, and the error then carries \<open>t\<close>; and for each of the four valid tags it
  returns a value with that tag for every byte slice \<open>data\<close>, the nil slice included.
\<close>

theorem Deserialize_failures:
  "(Deserialize data t = Inl ErrInvalidType \<longleftrightarrow> t = Invalid)
   \<and> ((\<exists>u. Deserialize data t = Inl (UnrecognizedType u)) \<longleftrightarrow> t \<notin> {Invalid, Address, Integer, Bytes, String})
   \<and> (t \<notin> {Invalid, Address, Integer, Bytes, String} \<longrightarrow> Deserialize data t = Inl (UnrecognizedType t))
   \<and> (t \<in> {Address, Integer, Bytes, String} \<longrightarrow> (\<exists>v. Deserialize data t = Inr (Ptr v) \<and> Type v = t))"
  using Deserialize_valid [of t data] by (auto simp: Deserialize_Inl)

theorem Deserialize_failures_witness:
  "Deserialize NilSlice Invalid = Inl ErrInvalidType
   \<and> Deserialize (Slice [7]) 9 = Inl (UnrecognizedType 9)
   \<and> (\<exists>v. Deserialize (Slice [255]) String = Inr (Ptr v) \<and> Type v = String)"
  using Deserialize_failures [of NilSlice Invalid] Deserialize_failures [of "Slice [7]" 9]
    Deserialize_failures [of "Slice [255]" String]
  by (simp add: tag_defs)

text \<open>
  Claim C3, amended. \<open>Serialize\<close> on a value returns \<open>ErrInvalidType\<close> when the tag is
  \<open>Invalid\<close>; a \<open>typeError\<close> holding a value of the expected type and the payload when the
  tag is valid and the dynamic type of the payload is not the one of the tag; the
  unrecognized-type error with the tag when the tag is none of the five constants; and it
  returns bytes in every other case in which the payload is not a nil \<^verbatim>\<open>*big.Int\<close>.
\<close>

theorem Serialize_outcomes:
  "(Type av = Invalid \<longrightarrow> Serialize (Ptr av) = Inl ErrInvalidType)
   \<and> (Type av \<in> {Address, Integer, Bytes, String} \<and> typeOf (Val av) \<noteq> typeTable (Type av) \<longrightarrow>
        (\<exists>exp. Serialize (Ptr av) = Inl (typeError exp (Val av))
            \<and> typeOf exp = typeTable (Type av)))
   \<and> (Type av \<notin> {Invalid, Address, Integer, Bytes, String} \<longrightarrow>
        Serialize (Ptr av) = Inl (UnrecognizedType (Type av)))
   \<and> (Type av \<in> {Address, Integer, Bytes, String} \<and> typeOf (Val av) = typeTable (Type av)
        \<and> Val av \<noteq> BigIntV NilPtr \<longrightarrow> (\<exists>bs. Serialize (Ptr av) = Inr bs))"
  using Serialize_Invalid [of av] Serialize_unrecognized [of av]
    Serialize_mismatch [of av] Serialize_match [of av]
  by blast

theorem Serialize_outcomes_witness:
  "Serialize (Ptr \<lparr>Type = Invalid, Val = StringV ''h''\<rparr>) = Inl ErrInvalidType
   \<and> (\<exists>exp. Serialize (Ptr \<lparr>Type = Bytes, Val = StringV ''h''\<rparr>) = Inl (typeError exp (StringV ''h''))
         \<and> typeOf exp = Some TByteSlice)
   \<and> Serialize (Ptr \<lparr>Type = 5, Val = StringV ''h''\<rparr>) = Inl (UnrecognizedType 5)
   \<and> (\<exists>bs. Serialize (Ptr \<lparr>Type = String, Val = StringV ''h''\<rparr>) = Inr bs)"
  using Serialize_outcomes [of "\<lparr>Type = Invalid, Val = StringV ''h''\<rparr>"]
    Serialize_outcomes [of "\<lparr>Type = Bytes, Val = StringV ''h''\<rparr>"]
    Serialize_outcomes [of "\<lparr>Type = 5, Val = StringV ''h''\<rparr>"]
    Serialize_outcomes [of "\<lparr>Type = String, Val = StringV ''h''\<rparr>"]
  by (simp add: tag_defs typeTable_def)

text \<open>
  Claim C3 as stated fails: with the tag Integer and a nil \<^verbatim>\<open>*big.Int\<close> payload the
  tag is valid and the dynamic type matches, yet the type assertion succeeds with a nil
  pointer and \<^verbatim>\<open>intgr.Bytes()\<close> panics, so no bytes are returned.
\<close>

theorem Serialize_nil_bigint_counterexample:
  "Integer \<in> {Address, Integer, Bytes, String}
   \<and> typeOf (BigIntV NilPtr) = typeTable Integer
   \<and> Serialize (Ptr \<lparr>Type = Integer, Val = BigIntV NilPtr\<rparr>) = Inl NilDereference"
  by (simp add: Serialize_def big_Bytes_def typeTable_def tag_defs)

text \<open>
  Claim C4. The value with tag Bytes and payload \<open>[0x01, 0x02, 0x03]\<close> serializes to
  exactly these three bytes and they deserialize with tag Bytes to the same value; the
  value with tag Integer and payload 300 serializes to \<open>[0x01, 0x2C]\<close> and these two
  bytes deserialize with tag Integer to the value 300.
\<close>

theorem concrete_encodings:
  "Serialize (Ptr \<lparr>Type = Bytes, Val = BytesV (Slice [0x01, 0x02, 0x03])\<rparr>) = Inr (Slice [0x01, 0x02, 0x03])
   \<and> Deserialize (Slice [0x01, 0x02, 0x03]) Bytes = Inr (Ptr \<lparr>Type = Bytes, Val = BytesV (Slice [0x01, 0x02, 0x03])\<rparr>)
   \<and> Serialize (Ptr \<lparr>Type = Integer, Val = BigIntV (Ptr 300)\<rparr>) = Inr (Slice [0x01, 0x2C])
   \<and> Deserialize (Slice [0x01, 0x2C]) Integer = Inr (Ptr \<lparr>Type = Integer, Val = BigIntV (Ptr 300)\<rparr>)"
  by (simp add: Serialize_def Deserialize_def tag_defs big_Bytes_def big_SetBytes_def
      nat_bytes_300 bytes_nat_def)

section \<open>The bulk adapters\<close>

text \<open>
  Claim C5, amended. For every slice \<open>xs\<close> of supported payloads \<open>ToValues\<close> succeeds and
  \<open>FromValues\<close> of its result has the elements of \<open>xs\<close> in the same order (and is \<open>xs\<close>
  itself, unless \<open>xs\<close> is the empty non-nil slice, which comes back as nil). On the slice
  of pointers to any list of values, and on the nil slice, \<open>FromValues\<close> returns the
  payloads whatever the tags are. On every input slice that holds no nil pointer
  \<open>FromValues\<close> returns the payloads of its elements in order, and these are the only
  inputs on which it returns.
\<close>

theorem FromValues_ToValues:
  "((\<forall>x\<in>set (elems xs). supported x) \<longrightarrow>
      (\<exists>vals out. ToValues xs = Inr vals \<and> FromValues vals = Inr out
          \<and> elems out = elems xs \<and> (xs \<noteq> Slice [] \<longrightarrow> out = xs)))
   \<and> FromValues (Slice (map Ptr vs)) = Inr (if vs = [] then NilSlice else Slice (map Val vs))
   \<and> FromValues NilSlice = Inr NilSlice
   \<and> (NilPtr \<notin> set (elems ps) \<longrightarrow>
        (\<exists>ws. elems ps = map Ptr ws
           \<and> FromValues ps = Inr (if ws = [] then NilSlice else Slice (map Val ws))))
   \<and> ((\<exists>out. FromValues ps = Inr out) \<longleftrightarrow> NilPtr \<notin> set (elems ps))"
proof -
  have n: "FromValues NilSlice = Inr NilSlice"
    by (simp add: FromValues_def len_def)
  have r: "\<exists>vals out. ToValues xs = Inr vals \<and> FromValues vals = Inr out
          \<and> elems out = elems xs \<and> (xs \<noteq> Slice [] \<longrightarrow> out = xs)"
    if "\<forall>x\<in>set (elems xs). supported x"
  proof -
    from ToValues_ok [OF that]
    obtain ws where ws: "ToValues xs = Inr (if elems xs = [] then NilSlice else Slice (map Ptr ws))"
        "map Val ws = elems xs"
      by blast
    show ?thesis
    proof (cases "elems xs = []")
      case True
      then show ?thesis using ws(1) n by (cases xs) simp_all
    next
      case False
      then have "ws \<noteq> []" using ws(2) by auto
      then have "FromValues (Slice (map Ptr ws)) = Inr (Slice (elems xs))"
        using ws(2) by (simp add: FromValues_Ptr)
      moreover have "Slice (elems xs) = xs" using False by (cases xs) simp_all
      ultimately show ?thesis using ws(1) False by simp
    qed
  qed
  have b: "NilPtr \<notin> set (elems ps) \<longrightarrow>
        (\<exists>ws. elems ps = map Ptr ws
           \<and> FromValues ps = Inr (if ws = [] then NilSlice else Slice (map Val ws)))"
    using FromValues_no_nil [of ps] by blast
  have c: "(\<exists>out. FromValues ps = Inr out) \<longleftrightarrow> NilPtr \<notin> set (elems ps)"
  proof (cases "NilPtr \<in> set (elems ps)")
    case True
    then show ?thesis using FromValues_nil_elem [of ps] by simp
  next
    case False
    then show ?thesis using b by auto
  qed
  show ?thesis using r n FromValues_Ptr [of vs] b c by blast
qed

theorem FromValues_ToValues_witness:
  "(\<exists>vals. ToValues (Slice [StringV ''hi'', BigIntV (Ptr 300)]) = Inr vals
       \<and> FromValues vals = Inr (Slice [StringV ''hi'', BigIntV (Ptr 300)]))
   \<and> FromValues (Slice [Ptr \<lparr>Type = Invalid, Val = OtherV 0 7\<rparr>]) = Inr (Slice [OtherV 0 7])
   \<and> NilPtr \<notin> set (elems (Slice [Ptr \<lparr>Type = Bytes, Val = NilV\<rparr>]))
   \<and> (\<exists>out. FromValues (Slice [Ptr \<lparr>Type = Bytes, Val = NilV\<rparr>]) = Inr out)"
  using FromValues_ToValues [where xs = "Slice [StringV ''hi'', BigIntV (Ptr 300)]" and vs = "[]"
      and ps = "Slice [Ptr \<lparr>Type = Bytes, Val = NilV\<rparr>]"]
    FromValues_ToValues [where xs = NilSlice and vs = "[\<lparr>Type = Invalid, Val = OtherV 0 7\<rparr>]"
      and ps = NilSlice]
  by auto

text \<open>
  Claim C5 as stated fails: \<open>FromValues\<close> reads \<^verbatim>\<open>v.Val\<close> through every element of its
  \<^verbatim>\<open>[]*Value\<close> argument, so on a slice that holds a nil pointer it panics and returns
  nothing.
\<close>

theorem FromValues_nil_element_counterexample:
  "FromValues (Slice [Ptr \<lparr>Type = String, Val = StringV ''hi''\<rparr>, NilPtr]) = Inl NilDereference"
  by (simp add: FromValues_def len_def)

text \<open>
  Claim C6. If the input holds an element that is not supported, after any number of
  supported ones and before any rest, \<open>ToValues\<close> returns the unsupported-type error
  with the dynamic type of that element, and no values. If every element is supported,
  \<open>ToValues\<close> returns one value per element in the same order, each holding its element
  as payload under a tag that the registry matches with the element's dynamic type.
\<close>

theorem ToValues_all_or_nothing:
  "(elems i = pre @ v # post \<and> (\<forall>x\<in>set pre. supported x) \<and> \<not> supported v \<longrightarrow>
      ToValues i = Inl (UnsupportedType (typeOf v)))
   \<and> ((\<forall>x\<in>set (elems i). supported x) \<longrightarrow>
        (\<exists>vs. ToValues i = Inr (if elems i = [] then NilSlice else Slice (map Ptr vs))
           \<and> map Val vs = elems i
           \<and> (\<forall>av\<in>set vs. TypeMatches (Type av) (typeOf (Val av)))))"
proof -
  have "ToValues i = Inl (UnsupportedType (typeOf v))"
    if "elems i = pre @ v # post" "\<forall>x\<in>set pre. supported x" "\<not> supported v"
    using that ToValues_loop_fail [of pre v post "[]"]
    by (simp add: ToValues_def len_def)
  then show ?thesis using ToValues_ok [of i] by blast
qed

theorem ToValues_all_or_nothing_witness:
  "ToValues (Slice [StringV ''hi'', OtherV 0 7, BigIntV (Ptr 300), NilV])
     = Inl (UnsupportedType (Some (TOther 0)))
   \<and> ToValues (Slice [OtherV 0 7, StringV ''hi'']) = Inl (UnsupportedType (Some (TOther 0)))
   \<and> ToValues (Slice [StringV ''hi'', NilV]) = Inl (UnsupportedType None)
   \<and> (\<exists>vs. ToValues (Slice [StringV ''hi'', BigIntV (Ptr 300)]) = Inr (Slice (map Ptr vs))
         \<and> map Val vs = [StringV ''hi'', BigIntV (Ptr 300)]
         \<and> (\<forall>av\<in>set vs. TypeMatches (Type av) (typeOf (Val av))))"
  using ToValues_all_or_nothing [of "Slice [StringV ''hi'', OtherV 0 7, BigIntV (Ptr 300), NilV]"
      "[StringV ''hi'']" "OtherV 0 7" "[BigIntV (Ptr 300), NilV]"]
    ToValues_all_or_nothing [of "Slice [OtherV 0 7, StringV ''hi'']"
      "[]" "OtherV 0 7" "[StringV ''hi'']"]
    ToValues_all_or_nothing [of "Slice [StringV ''hi'', NilV]"
      "[StringV ''hi'']" "NilV" "[]"]
    ToValues_all_or_nothing [of "Slice [StringV ''hi'', BigIntV (Ptr 300)]"
      "[]" "NilV" "[]"]
  by simp

text \<open>
  Claim C7. \<open>ToValues\<close> returns the nil slice, not an empty one, both for the empty
  slice and for the nil slice, and so does \<open>FromValues\<close>; the two inputs are not told
  apart.
\<close>

theorem empty_normalized:
  "ToValues (Slice []) = Inr NilSlice \<and> ToValues NilSlice = Inr NilSlice
   \<and> FromValues (Slice []) = Inr NilSlice \<and> FromValues NilSlice = Inr NilSlice
   \<and> ToValues (Slice []) \<noteq> Inr (Slice []) \<and> FromValues (Slice []) \<noteq> Inr (Slice [])"
  by (simp add: ToValues_def FromValues_def len_def)

section \<open>The registry\<close>

text \<open>
  Claim C8. \<open>TypeMatches t R\<close> is true exactly when the registry maps \<open>t\<close> to \<open>R\<close>, that
  is for the four pairs of a valid tag and its type; it is false for \<open>Invalid\<close>, for every
  tag that is none of the five constants, and for the nil type descriptor. The result is
  a truth value in every case.
\<close>

theorem TypeMatches_registry:
  "(TypeMatches t (Some r) \<longleftrightarrow> typeTable t = Some r)
   \<and> (TypeMatches t R \<longleftrightarrow>
        (t = Address \<and> R = Some TAddress) \<or> (t = Integer \<and> R = Some TBigIntPtr)
        \<or> (t = Bytes \<and> R = Some TByteSlice) \<or> (t = String \<and> R = Some TString))
   \<and> \<not> TypeMatches Invalid R
   \<and> (t \<notin> {Invalid, Address, Integer, Bytes, String} \<longrightarrow> \<not> TypeMatches t R)
   \<and> \<not> TypeMatches t None"
proof -
  have a: "TypeMatches t (Some r) \<longleftrightarrow> typeTable t = Some r" for t r
    by (auto simp: TypeMatches_def split: option.splits)
  have n: "\<not> TypeMatches t None" for t
    by (simp add: TypeMatches_def split: option.splits)
  have b: "TypeMatches t R \<longleftrightarrow>
        (t = Address \<and> R = Some TAddress) \<or> (t = Integer \<and> R = Some TBigIntPtr)
        \<or> (t = Bytes \<and> R = Some TByteSlice) \<or> (t = String \<and> R = Some TString)" for t R
  proof (cases R)
    case None
    then show ?thesis using n by simp
  next
    case (Some r)
    then show ?thesis using a [of t r] by (simp add: typeTable_eq_Some)
  qed
  have c: "\<not> TypeMatches Invalid R"
    by (simp add: TypeMatches_def typeTable_def tag_defs)
  have d: "t \<notin> {Invalid, Address, Integer, Bytes, String} \<longrightarrow> \<not> TypeMatches t R"
    by (simp add: TypeMatches_def typeTable_def)
  show ?thesis using a b c d n by blast
qed

theorem TypeMatches_registry_witness:
  "TypeMatches Integer (Some TBigIntPtr) \<and> \<not> TypeMatches Integer (Some TString)
   \<and> \<not> TypeMatches Invalid (Some TString) \<and> \<not> TypeMatches 5 (Some TString)"
  using TypeMatches_registry [of Integer TBigIntPtr "Some TString"]
    TypeMatches_registry [of 5 TString "Some TString"]
  by (simp add: tag_defs typeTable_def)

section \<open>Edge cases of Serialize\<close>

text \<open>
  Claim C9. The integer zero serializes to a slice of length zero, and both the empty
  and the nil byte slice deserialize with tag Integer to the integer zero.
\<close>

theorem zero_encoding:
  "Serialize (Ptr \<lparr>Type = Integer, Val = BigIntV (Ptr 0)\<rparr>) = Inr (Slice [])
   \<and> Deserialize (Slice []) Integer = Inr (Ptr \<lparr>Type = Integer, Val = BigIntV (Ptr 0)\<rparr>)
   \<and> Deserialize NilSlice Integer = Inr (Ptr \<lparr>Type = Integer, Val = BigIntV (Ptr 0)\<rparr>)"
  by (simp add: Serialize_def Deserialize_def tag_defs big_Bytes_def big_SetBytes_def
      nat_bytes_0 bytes_nat_def)

text \<open>
  Claim C10. For each of the four valid tags, \<open>Serialize\<close> on a value whose payload is
  the untyped nil returns a \<open>typeError\<close> holding a value of the expected type and the nil
  payload: the failed type assertion is an error result, not a panic.
\<close>

theorem Serialize_nil_payload:
  "t \<in> {Address, Integer, Bytes, String} \<Longrightarrow>
     \<exists>exp. Serialize (Ptr \<lparr>Type = t, Val = NilV\<rparr>) = Inl (typeError exp NilV)
          \<and> typeOf exp = typeTable t"
  using Serialize_mismatch [of "\<lparr>Type = t, Val = NilV\<rparr>"]
  by (auto simp: typeTable_def tag_defs)

theorem Serialize_nil_payload_witness:
  "Integer \<in> {Address, Integer, Bytes, String}
   \<and> (\<exists>exp. Serialize (Ptr \<lparr>Type = Integer, Val = NilV\<rparr>) = Inl (typeError exp NilV)
          \<and> typeOf exp = typeTable Integer)"
  using Serialize_nil_payload [of Integer] by simp

end
